theory Spec2Isabelle
  imports Complex_Main "HOL-Library.AList" "HOL-Library.Multiset"
begin

section \<open>Strings\<close>

text \<open>
  JavaScript strings are modelled as \<open>string\<close>, a list of characters, restricted to the
  ASCII range: \<open>toUpperCase\<close>, \<open>toLowerCase\<close> and \<open>trim\<close> act on the ASCII letters and
  the ASCII white space only.
\<close>

definition toUpperChar :: "char \<Rightarrow> char" where
  "toUpperChar c =
     (let n = (of_char c :: nat) in if 97 \<le> n \<and> n \<le> 122 then char_of (n - 32) else c)"

definition toUpperCase :: "string \<Rightarrow> string" where
  "toUpperCase s = map toUpperChar s"

definition toLowerChar :: "char \<Rightarrow> char" where
  "toLowerChar c =
     (let n = (of_char c :: nat) in if 65 \<le> n \<and> n \<le> 90 then char_of (n + 32) else c)"

definition toLowerCase :: "string \<Rightarrow> string" where
  "toLowerCase s = map toLowerChar s"

definition isDigit :: "char \<Rightarrow> bool" where
  "isDigit c = (let n = (of_char c :: nat) in 48 \<le> n \<and> n \<le> 57)"

definition digitValue :: "char \<Rightarrow> nat" where
  "digitValue c = of_char c - 48"

definition decimalValue :: "string \<Rightarrow> nat" where
  "decimalValue s = foldl (\<lambda>a c. 10 * a + digitValue c) 0 s"

section \<open>Rows and the per-country aggregate\<close>

text \<open>
  A row of the \<open>data\<close> state: \<open>{country, region, sentiment}\<close>. The sentiment is the
  result of \<open>parseInt\<close>, an integer, or \<open>null\<close> (here \<open>None\<close>).
\<close>

record row =
  country :: string
  region :: string
  sentiment :: "int option"

text \<open>
  The value stored in \<open>countryData\<close> under a country identifier, and the entry of the
  array \<open>aggregateData\<close> returns, which has the same four fields and adds \<open>id\<close> and
  \<open>total\<close>. The counts are JavaScript numbers that start at 0 and are only ever
  incremented by one; they are modelled as \<open>int\<close>.
\<close>

record counts =
  positive :: int
  neutral :: int
  negative :: int
  displayName :: string

record entry = counts +
  entryId :: string
  total :: int

text \<open>
  \<open>countryNameToId\<close> is imported from \<open>./constants/countryCodes\<close>; the functions below
  take it as a parameter: \<open>countryNameToId c\<close> is the value of the JavaScript expression
  \<open>countryNameToId[c]\<close>, \<open>None\<close> where that is \<open>undefined\<close>.
  \<open>countryNameToId[row.country] || row.country.toUpperCase()\<close> falls back to the
  upper-cased name when the lookup is \<open>undefined\<close> or the empty string.
\<close>

definition countryIdOf :: "(string \<Rightarrow> string option) \<Rightarrow> string \<Rightarrow> string" where
  "countryIdOf countryNameToId c =
     (case countryNameToId c of
        None \<Rightarrow> toUpperCase c
      | Some i \<Rightarrow> if i = [] then toUpperCase c else i)"

text \<open>
  The object \<open>countryData\<close> is an association list in insertion order with distinct keys:
  \<open>AList.update\<close> on an absent key appends it, as a property assignment does. The
  stored values are objects, so \<open>!countryData[countryId]\<close> holds exactly when the key is
  absent; identifiers are taken to differ from the property names that every object
  inherits (\<open>constructor\<close>, \<open>toString\<close> and the like, none of which is upper case).
  The body of the \<open>forEach\<close> callback without its \<open>console.log\<close>: create the entry of
  the row's country when there is none, then increment the count the sentiment selects.
  A sentiment other than 0, 1 and 2 increments nothing.
\<close>

definition processRow ::
  "(string \<Rightarrow> string option) \<Rightarrow> (string \<times> counts) list \<Rightarrow> row \<Rightarrow> (string \<times> counts) list" where
  "processRow countryNameToId countryData r =
     (let countryId = countryIdOf countryNameToId (country r);
          created =
            (if map_of countryData countryId = None
             then AList.update countryId
                    \<lparr>positive = 0, neutral = 0, negative = 0, displayName = country r\<rparr>
                    countryData
             else countryData)
      in if sentiment r = Some 2
           then AList.map_entry countryId (\<lambda>c. c\<lparr>positive := positive c + 1\<rparr>) created
         else if sentiment r = Some 1
           then AList.map_entry countryId (\<lambda>c. c\<lparr>neutral := neutral c + 1\<rparr>) created
         else if sentiment r = Some 0
           then AList.map_entry countryId (\<lambda>c. c\<lparr>negative := negative c + 1\<rparr>) created
         else created)"

text \<open>
  \<open>data.forEach((row, index) => ...)\<close>: the callback is applied to every element and its
  index, from left to right. The state threaded through is \<open>countryData\<close> together with
  the lines written to the console by \<open>console.log(`Processing row ${index}:`, ...)\<close>,
  each line holding the index, the country, the identifier and the sentiment.
\<close>

fun forEach :: "('s \<Rightarrow> 'a \<Rightarrow> nat \<Rightarrow> 's) \<Rightarrow> 'a list \<Rightarrow> nat \<Rightarrow> 's \<Rightarrow> 's" where
  "forEach f [] i s = s"
| "forEach f (x # xs) i s = forEach f xs (Suc i) (f s x i)"

type_synonym logLine = "nat \<times> string \<times> string \<times> int option"

definition rowCallback ::
  "(string \<Rightarrow> string option) \<Rightarrow> (string \<times> counts) list \<times> logLine list \<Rightarrow> row \<Rightarrow> nat
     \<Rightarrow> (string \<times> counts) list \<times> logLine list" where
  "rowCallback countryNameToId st r index =
     (processRow countryNameToId (fst st) r,
      snd st @ [(index, country r, countryIdOf countryNameToId (country r), sentiment r)])"

text \<open>
  \<open>Object.entries\<close> lists the keys that are array indices (canonical decimal numerals
  below \<open>2^32 - 1\<close>) first, in ascending numeric order, and then every other key in
  insertion order.
\<close>

definition isArrayIndex :: "string \<Rightarrow> bool" where
  "isArrayIndex s =
     (s \<noteq> [] \<and> list_all isDigit s \<and> (s = ''0'' \<or> hd s \<noteq> CHR ''0'')
      \<and> decimalValue s < 2 ^ 32 - 1)"

definition objectEntries :: "(string \<times> 'a) list \<Rightarrow> (string \<times> 'a) list" where
  "objectEntries props =
     sort_key (\<lambda>p. decimalValue (fst p)) (filter (\<lambda>p. isArrayIndex (fst p)) props)
     @ filter (\<lambda>p. \<not> isArrayIndex (fst p)) props"

text \<open>\<open>x || 0\<close> on a number: 0 when \<open>x\<close> is 0, else \<open>x\<close>.\<close>

definition orZero :: "int \<Rightarrow> int" where
  "orZero x = (if x = 0 then 0 else x)"

definition toEntry :: "string \<times> counts \<Rightarrow> entry" where
  "toEntry p =
     \<lparr>positive = orZero (positive (snd p)),
      neutral = orZero (neutral (snd p)),
      negative = orZero (negative (snd p)),
      displayName = displayName (snd p),
      entryId = fst p,
      total = orZero (positive (snd p)) + orZero (neutral (snd p)) + orZero (negative (snd p))\<rparr>"

definition aggregateRun ::
  "(string \<Rightarrow> string option) \<Rightarrow> row list \<Rightarrow> (string \<times> counts) list \<times> logLine list" where
  "aggregateRun countryNameToId data = forEach (rowCallback countryNameToId) data 0 ([], [])"

definition aggregateData :: "(string \<Rightarrow> string option) \<Rightarrow> row list \<Rightarrow> entry list" where
  "aggregateData countryNameToId data =
     map toEntry (objectEntries (fst (aggregateRun countryNameToId data)))"

definition aggregateLog :: "(string \<Rightarrow> string option) \<Rightarrow> row list \<Rightarrow> logLine list" where
  "aggregateLog countryNameToId data = snd (aggregateRun countryNameToId data)"

subsection \<open>The work of the aggregation\<close>

text \<open>
  The body of the \<open>forEach\<close> callback once more, returning with the new object the number
  of property accesses it makes on \<open>countryNameToId\<close> and \<open>countryData\<close>: the lookup
  \<open>countryNameToId[row.country]\<close>, the test \<open>!countryData[countryId]\<close>, the assignment that
  creates the entry, and \<open>countryData[countryId]\<close> in the increment. An access counts one
  step whatever the size of the object: the objects of the engine are hash tables, where
  the association list of this model is searched from its head.
\<close>

definition processRowT ::
  "(string \<Rightarrow> string option) \<Rightarrow> (string \<times> counts) list \<Rightarrow> row
     \<Rightarrow> (string \<times> counts) list \<times> nat" where
  "processRowT countryNameToId countryData r =
     (let countryId = countryIdOf countryNameToId (country r);
          absent = (map_of countryData countryId = None);
          created =
            (if absent
             then AList.update countryId
                    \<lparr>positive = 0, neutral = 0, negative = 0, displayName = country r\<rparr>
                    countryData
             else countryData);
          t = (if absent then 3 else 2 :: nat)
      in if sentiment r = Some 2
           then (AList.map_entry countryId (\<lambda>c. c\<lparr>positive := positive c + 1\<rparr>) created, t + 1)
         else if sentiment r = Some 1
           then (AList.map_entry countryId (\<lambda>c. c\<lparr>neutral := neutral c + 1\<rparr>) created, t + 1)
         else if sentiment r = Some 0
           then (AList.map_entry countryId (\<lambda>c. c\<lparr>negative := negative c + 1\<rparr>) created, t + 1)
         else (created, t))"

text \<open>
  The callback with its console line, adding the steps of the row to a counter, and the
  whole of \<open>aggregateData\<close>: the \<open>forEach\<close> from the empty object and a counter at 0,
  then \<open>Object.entries\<close> and \<open>map\<close>, each of which visits every entry once.
\<close>

definition rowCallbackT ::
  "(string \<Rightarrow> string option) \<Rightarrow> ((string \<times> counts) list \<times> logLine list) \<times> nat \<Rightarrow> row \<Rightarrow> nat
     \<Rightarrow> ((string \<times> counts) list \<times> logLine list) \<times> nat" where
  "rowCallbackT countryNameToId st r index =
     ((fst (processRowT countryNameToId (fst (fst st)) r),
       snd (fst st) @ [(index, country r, countryIdOf countryNameToId (country r), sentiment r)]),
      snd st + snd (processRowT countryNameToId (fst (fst st)) r))"

definition aggregateDataT :: "(string \<Rightarrow> string option) \<Rightarrow> row list \<Rightarrow> entry list \<times> nat" where
  "aggregateDataT countryNameToId data =
     (let run = forEach (rowCallbackT countryNameToId) data 0 (([], []), 0);
          entries = objectEntries (fst (fst run))
      in (map toEntry entries, snd run + 2 * length entries))"

section \<open>Colour value of a country\<close>

text \<open>
  \<open>getColorValue(countryData, view)\<close>. The divisions are JavaScript floating-point
  divisions of integers; they are modelled exactly, in \<open>rat\<close>. The guard
  \<open>!countryData || countryData.total === 0\<close> and the score of the overall view are
  named on their own; past the guard \<open>countryData\<close> is an entry, so \<open>the\<close> reads it.
\<close>

definition zeroGuard :: "entry option \<Rightarrow> bool" where
  "zeroGuard countryData = (case countryData of None \<Rightarrow> True | Some cd \<Rightarrow> total cd = 0)"

definition overallScore :: "entry \<Rightarrow> rat" where
  "overallScore cd =
     of_int (2 * positive cd + neutral cd - 2 * negative cd) / of_int (2 * total cd)"

definition getColorValue :: "entry option \<Rightarrow> string \<Rightarrow> rat" where
  "getColorValue countryData view =
     (if zeroGuard countryData then 0
      else let cd = the countryData in
        if view = ''positive'' then of_int (positive cd) / of_int (total cd)
        else if view = ''neutral'' then of_int (neutral cd) / of_int (total cd)
        else if view = ''negative'' then of_int (negative cd) / of_int (total cd)
        else (overallScore cd + 1) / 2)"

section \<open>Loading the CSV\<close>

text \<open>
  \<open>String.prototype.trim\<close> and \<open>parseInt(s, 10)\<close>: skip leading white space, read an
  optional sign, then the longest run of decimal digits; no digit gives \<open>NaN\<close>
  (\<open>None\<close>). The value is kept as an exact integer.
\<close>

definition isWhiteSpace :: "char \<Rightarrow> bool" where
  "isWhiteSpace c = (let n = (of_char c :: nat) in (9 \<le> n \<and> n \<le> 13) \<or> n = 32)"

definition trim :: "string \<Rightarrow> string" where
  "trim s = rev (dropWhile isWhiteSpace (rev (dropWhile isWhiteSpace s)))"

definition parseInt10 :: "string \<Rightarrow> int option" where
  "parseInt10 inputString =
     (let s = dropWhile isWhiteSpace inputString;
          sign = (if s \<noteq> [] \<and> hd s = CHR ''-'' then - 1 else 1 :: int);
          s' = (if s \<noteq> [] \<and> (hd s = CHR ''+'' \<or> hd s = CHR ''-'') then tl s else s);
          z = takeWhile isDigit s'
      in if z = [] then None else Some (sign * int (decimalValue z)))"

text \<open>
  A row object of \<open>parsed.data\<close> maps a header to the cell under it; a header the row
  has no cell for is \<open>undefined\<close> (\<open>None\<close>). \<open>parsed.meta.fields\<close> is the header row.
\<close>

type_synonym rowObject = "string \<Rightarrow> string option"

record parseResult =
  metaFields :: "string list"
  parsedData :: "rowObject list"

text \<open>
  The CSV text as the parser tokenises it: the cells of the header line and the cells of
  every record. In header mode the third-party parser builds one object per record,
  assigning each cell, passed through the \<open>transform\<close> option (here \<open>value.trim()\<close>), to
  the header of its column, from left to right; cells beyond the last header are not
  stored under any header. A file without a header line has the empty header row.
\<close>

record csvText =
  headerCells :: "string list"
  recordCells :: "string list list"

definition papaRow :: "string list \<Rightarrow> string list \<Rightarrow> rowObject" where
  "papaRow hs cells = foldl (\<lambda>obj p. obj(fst p \<mapsto> trim (snd p))) Map.empty (zip hs cells)"

definition papaParse :: "csvText \<Rightarrow> parseResult" where
  "papaParse csv =
     \<lparr>metaFields = headerCells csv,
      parsedData = map (papaRow (headerCells csv)) (recordCells csv)\<rparr>"

text \<open>
  \<open>headers.find((h) => h.toLowerCase() === name) || fallback\<close>: the first header equal
  to the name up to case, else the literal.
\<close>

definition findHeader :: "string list \<Rightarrow> string \<Rightarrow> string \<Rightarrow> string" where
  "findHeader headers name fallback =
     (case find (\<lambda>h. toLowerCase h = name) headers of
        None \<Rightarrow> fallback
      | Some h \<Rightarrow> if h = [] then fallback else h)"

definition countryHeader :: "string list \<Rightarrow> string" where
  "countryHeader headers = findHeader headers ''country'' ''Country''"

definition regionHeader :: "string list \<Rightarrow> string" where
  "regionHeader headers = findHeader headers ''region'' ''Region''"

definition valueHeader :: "string list \<Rightarrow> string" where
  "valueHeader headers = findHeader headers ''randomvalue'' ''RandomValue''"

text \<open>
  The \<open>map\<close> callback: \<open>row[h] || ''\<close> for the country and the region, and
  \<open>parseInt(row[valueHeader], 10)\<close> with \<open>NaN\<close> replaced by \<open>null\<close>; \<open>parseInt\<close> of
  \<open>undefined\<close> reads the string \<open>undefined\<close>.
\<close>

definition orEmpty :: "string option \<Rightarrow> string" where
  "orEmpty x = (case x of None \<Rightarrow> [] | Some s \<Rightarrow> s)"

definition toRow :: "string \<Rightarrow> string \<Rightarrow> string \<Rightarrow> rowObject \<Rightarrow> row" where
  "toRow ch rh vh obj =
     \<lparr>country = orEmpty (obj ch),
      region = orEmpty (obj rh),
      sentiment = parseInt10 (case obj vh of None \<Rightarrow> ''undefined'' | Some s \<Rightarrow> s)\<rparr>"

text \<open>
  The \<open>filter\<close> callback: a non-empty country and a sentiment that is not \<open>null\<close>, is an
  integer (every value of \<open>parseInt10\<close> is) and lies between 0 and 2.
\<close>

definition isValid :: "row \<Rightarrow> bool" where
  "isValid r =
     (country r \<noteq> [] \<and> (case sentiment r of None \<Rightarrow> False | Some n \<Rightarrow> 0 \<le> n \<and> n \<le> 2))"

definition extractRows :: "parseResult \<Rightarrow> row list" where
  "extractRows parsed =
     (let headers = metaFields parsed
      in filter isValid
           (map (toRow (countryHeader headers) (regionHeader headers) (valueHeader headers))
                (parsedData parsed)))"

subsection \<open>The load effect and the rendered view\<close>

text \<open>
  The outcome of \<open>fetch\<close>: the promise is rejected with an error message, or a response
  arrives with its \<open>ok\<close> flag, status, status text and body.
\<close>

record response =
  ok :: bool
  status :: nat
  statusText :: string
  body :: csvText

datatype fetched = Rejected string | Responded response

fun decimal :: "nat \<Rightarrow> string" where
  "decimal n =
     (if n < 10 then [char_of (48 + n)] else decimal (n div 10) @ [char_of (48 + n mod 10)])"

declare decimal.simps [simp del]

text \<open>
  The first \<open>then\<close>: a response that is not \<open>ok\<close> throws
  \<open>HTTP error: ${response.status} ${response.statusText}\<close>. \<open>Inl\<close> carries the message
  of the error that reaches \<open>catch\<close>.
\<close>

definition responseText :: "fetched \<Rightarrow> string + csvText" where
  "responseText f =
     (case f of
        Rejected msg \<Rightarrow> Inl msg
      | Responded r \<Rightarrow>
          if \<not> ok r then Inl (''HTTP error: '' @ decimal (status r) @ '' '' @ statusText r)
          else Inr (body r))"

record app =
  data :: "row list"
  error :: "string option"

definition noValidData :: string where
  "noValidData =
     ''No valid data found. Check CSV format (headers: Country,Region,RandomValue).''"

definition loadEffect :: "fetched \<Rightarrow> app \<Rightarrow> app" where
  "loadEffect f st =
     (case responseText f of
        Inl msg \<Rightarrow> st\<lparr>error := Some (''Failed to load data: '' @ msg)\<rparr>
      | Inr csv \<Rightarrow>
          let rows = extractRows (papaParse csv)
          in if length rows = 0 then st\<lparr>error := Some noValidData\<rparr>
             else st\<lparr>data := rows\<rparr>)"

definition initialApp :: app where
  "initialApp = \<lparr>data = [], error = None\<rparr>"

text \<open>
  What the component returns: the error view when \<open>error\<close> is truthy (a non-empty
  string), the loading view when \<open>data\<close> is empty, else the dashboard.
\<close>

datatype screen = ErrorView string | LoadingView | DashboardView

definition render :: "app \<Rightarrow> screen" where
  "render st =
     (case error st of
        Some e \<Rightarrow> if e \<noteq> [] then ErrorView e
                  else if length (data st) = 0 then LoadingView else DashboardView
      | None \<Rightarrow> if length (data st) = 0 then LoadingView else DashboardView)"

section \<open>Notions used to state the properties\<close>

text \<open>The identifier a row is filed under, and the number of rows of a list filed under
  an identifier with a given sentiment.\<close>

abbreviation rowId :: "(string \<Rightarrow> string option) \<Rightarrow> row \<Rightarrow> string" where
  "rowId tbl r \<equiv> countryIdOf tbl (country r)"

definition tally :: "(string \<Rightarrow> string option) \<Rightarrow> row list \<Rightarrow> string \<Rightarrow> int \<Rightarrow> int" where
  "tally tbl rows k s =
     int (length (filter (\<lambda>r. rowId tbl r = k \<and> sentiment r = Some s) rows))"

definition fresh :: "string \<Rightarrow> counts" where
  "fresh name = \<lparr>positive = 0, neutral = 0, negative = 0, displayName = name\<rparr>"

definition increment :: "int option \<Rightarrow> counts \<Rightarrow> counts" where
  "increment s c =
     (if s = Some 2 then c\<lparr>positive := positive c + 1\<rparr>
      else if s = Some 1 then c\<lparr>neutral := neutral c + 1\<rparr>
      else if s = Some 0 then c\<lparr>negative := negative c + 1\<rparr>
      else c)"

definition addTally ::
  "(string \<Rightarrow> string option) \<Rightarrow> row list \<Rightarrow> string \<Rightarrow> counts \<Rightarrow> counts" where
  "addTally tbl rows k c =
     c\<lparr>positive := positive c + tally tbl rows k 2,
       neutral := neutral c + tally tbl rows k 1,
       negative := negative c + tally tbl rows k 0\<rparr>"

text \<open>The country of the first row filed under an identifier.\<close>

definition firstName :: "(string \<Rightarrow> string option) \<Rightarrow> row list \<Rightarrow> string \<Rightarrow> string" where
  "firstName tbl rows k =
     (case find (\<lambda>r. rowId tbl r = k) rows of None \<Rightarrow> [] | Some r \<Rightarrow> country r)"

text \<open>The entry of an identifier, written from the tallies.\<close>

definition entryOf :: "(string \<Rightarrow> string option) \<Rightarrow> row list \<Rightarrow> string \<Rightarrow> entry" where
  "entryOf tbl rows k =
     \<lparr>positive = tally tbl rows k 2,
      neutral = tally tbl rows k 1,
      negative = tally tbl rows k 0,
      displayName = firstName tbl rows k,
      entryId = k,
      total = tally tbl rows k 2 + tally tbl rows k 1 + tally tbl rows k 0\<rparr>"

text \<open>
  The counts found for an identifier, looked up as the component does with
  \<open>aggregated.find((item) => item.id === id)\<close>; all zero when there is no entry.
\<close>

definition countsAt :: "(string \<Rightarrow> string option) \<Rightarrow> row list \<Rightarrow> string \<Rightarrow> int \<times> int \<times> int" where
  "countsAt tbl rows k =
     (case find (\<lambda>item. entryId item = k) (aggregateData tbl rows) of
        None \<Rightarrow> (0, 0, 0)
      | Some e \<Rightarrow> (positive e, neutral e, negative e))"

text \<open>An entry without its display name.\<close>

definition countsOnly :: "entry \<Rightarrow> string \<times> int \<times> int \<times> int \<times> int" where
  "countsOnly e = (entryId e, positive e, neutral e, negative e, total e)"

text \<open>A small identifier table and a few rows, to run the functions on.\<close>

definition sampleIds :: "string \<Rightarrow> string option" where
  "sampleIds = map_of [(''India'', ''IN''), (''United States'', ''US'')]"

definition sampleRows :: "row list" where
  "sampleRows =
     [\<lparr>country = ''India'', region = ''Asia'', sentiment = Some 2\<rparr>,
      \<lparr>country = ''france'', region = ''Europe'', sentiment = Some 0\<rparr>,
      \<lparr>country = ''India'', region = ''Asia'', sentiment = Some 1\<rparr>,
      \<lparr>country = ''France'', region = ''Europe'', sentiment = Some 0\<rparr>]"

text \<open>
  The rule of the specification for keeping a row object: the cell under the country
  header is there and is not empty, and the cell under the value header is there and
  \<open>parseInt\<close> reads 0, 1 or 2 from it.
\<close>

definition keptBySpec :: "string \<Rightarrow> string \<Rightarrow> rowObject \<Rightarrow> bool" where
  "keptBySpec ch vh obj =
     ((case obj ch of None \<Rightarrow> False | Some c \<Rightarrow> c \<noteq> [])
      \<and> (case obj vh of None \<Rightarrow> False | Some v \<Rightarrow> parseInt10 v \<in> {Some 0, Some 1, Some 2}))"

text \<open>The records of a small CSV file.\<close>

definition sampleCells :: "string list list" where
  "sampleCells =
     [[''India'', ''Asia'', ''2''], ['''', ''Asia'', ''1''], [''France'', ''Europe'', ''3''],
      [''Peru'', ''America''], [''Chile '', ''America'', ''0'']]"

text \<open>Sample files and fetch outcomes.\<close>

definition sampleCsv :: csvText where
  "sampleCsv = \<lparr>headerCells = [''Country'', ''Region'', ''RandomValue''], recordCells = sampleCells\<rparr>"

definition emptyCsv :: csvText where
  "emptyCsv = \<lparr>headerCells = [''Country'', ''Region'', ''RandomValue''], recordCells = []\<rparr>"

definition served :: "csvText \<Rightarrow> fetched" where
  "served csv = Responded \<lparr>ok = True, status = 200, statusText = ''OK'', body = csv\<rparr>"

definition notFound :: fetched where
  "notFound = Responded \<lparr>ok = False, status = 404, statusText = ''Not Found'', body = emptyCsv\<rparr>"

section \<open>The aggregate as a tally\<close>

lemma map_entry_id: "AList.map_entry k (\<lambda>c. c) xs = xs"
  by (induction xs) auto

lemma processRow_increment:
  "processRow tbl cd r =
     AList.map_entry (rowId tbl r) (increment (sentiment r))
       (if map_of cd (rowId tbl r) = None
        then AList.update (rowId tbl r) (fresh (country r)) cd else cd)"
  by (cases "sentiment r")
     (auto simp: processRow_def fresh_def Let_def map_entry_id increment_def[abs_def])

lemma processRow_map_of:
  "map_of (processRow tbl cd r) k =
     (if k = rowId tbl r
      then Some (increment (sentiment r)
                  (case map_of cd k of None \<Rightarrow> fresh (country r) | Some c \<Rightarrow> c))
      else map_of cd k)"
  by (auto simp: processRow_increment map_of_map_entry update_conv' split: option.splits)

lemma processRow_distinct:
  "distinct (map fst cd) \<Longrightarrow> distinct (map fst (processRow tbl cd r))"
  by (simp add: processRow_increment distinct_map_entry distinct_update)

lemma foldl_processRow_distinct:
  "distinct (map fst cd) \<Longrightarrow> distinct (map fst (foldl (processRow tbl) cd rows))"
  by (induction rows arbitrary: cd) (simp_all add: processRow_distinct)

lemma tally_Cons:
  "tally tbl (r # rows) k s =
     (if rowId tbl r = k \<and> sentiment r = Some s then 1 else 0) + tally tbl rows k s"
  by (simp add: tally_def)

lemma addTally_Cons_same:
  "rowId tbl r = k \<Longrightarrow>
     addTally tbl rows k (increment (sentiment r) c) = addTally tbl (r # rows) k c"
  by (simp add: addTally_def increment_def tally_Cons)

lemma addTally_Cons_other:
  "rowId tbl r \<noteq> k \<Longrightarrow> addTally tbl (r # rows) k c = addTally tbl rows k c"
  by (auto simp add: addTally_def tally_Cons)

lemma foldl_processRow_map_of:
  "map_of (foldl (processRow tbl) cd rows) k =
     (case map_of cd k of
        Some c \<Rightarrow> Some (addTally tbl rows k c)
      | None \<Rightarrow> if k \<in> rowId tbl ` set rows
                then Some (addTally tbl rows k (fresh (firstName tbl rows k)))
                else None)"
proof (induction rows arbitrary: cd)
  case Nil
  show ?case by (simp add: addTally_def tally_def split: option.splits)
next
  case (Cons r rows)
  show ?case
  proof (cases "rowId tbl r = k")
    case True
    then show ?thesis
      by (simp add: Cons.IH processRow_map_of addTally_Cons_same firstName_def
               split: option.splits)
  next
    case False
    then show ?thesis
      by (auto simp add: Cons.IH processRow_map_of addTally_Cons_other firstName_def
               split: option.splits)
  qed
qed

lemma forEach_rowCallback:
  "forEach (rowCallback tbl) rows i st =
     (foldl (processRow tbl) (fst st) rows,
      snd st @ map (\<lambda>(j, r). (j, country r, rowId tbl r, sentiment r))
                 (zip [i ..< i + length rows] rows))"
proof (induction rows arbitrary: i st)
  case Nil
  show ?case by simp
next
  case (Cons r rows)
  have "[i ..< i + length (r # rows)] = i # [Suc i ..< Suc i + length rows]"
    by (simp add: upt_conv_Cons del: upt_Suc)
  moreover have "fst (rowCallback tbl st r i) = processRow tbl (fst st) r"
    and "snd (rowCallback tbl st r i) = snd st @ [(i, country r, rowId tbl r, sentiment r)]"
    by (simp_all add: rowCallback_def)
  ultimately show ?case
    by (simp add: Cons.IH del: upt_Suc)
qed

lemma mset_objectEntries: "mset (objectEntries xs) = mset xs"
  by (simp add: objectEntries_def)

lemma set_objectEntries: "set (objectEntries xs) = set xs"
  by (metis mset_objectEntries set_mset_mset)

lemma distinct_objectEntries:
  "distinct (map fst xs) \<Longrightarrow> distinct (map fst (objectEntries xs))"
proof -
  have "mset (map fst (objectEntries xs)) = mset (map fst xs)"
    by (simp add: mset_objectEntries)
  then show "distinct (map fst xs) \<Longrightarrow> distinct (map fst (objectEntries xs))"
    by (metis mset_eq_imp_distinct_iff)
qed

lemma fst_aggregateRun: "fst (aggregateRun tbl rows) = foldl (processRow tbl) [] rows"
  by (simp add: aggregateRun_def forEach_rowCallback)

lemma countryData_distinct: "distinct (map fst (fst (aggregateRun tbl rows)))"
  by (simp add: fst_aggregateRun foldl_processRow_distinct)

lemma countryData_map_of:
  "map_of (fst (aggregateRun tbl rows)) k =
     (if k \<in> rowId tbl ` set rows
      then Some (addTally tbl rows k (fresh (firstName tbl rows k))) else None)"
  by (simp add: fst_aggregateRun foldl_processRow_map_of)

lemma toEntry_addTally:
  "toEntry (k, addTally tbl rows k (fresh name)) = (entryOf tbl rows k)\<lparr>displayName := name\<rparr>"
  by (simp add: toEntry_def addTally_def fresh_def entryOf_def orZero_def)

lemma set_aggregateData:
  "set (aggregateData tbl rows) = entryOf tbl rows ` rowId tbl ` set rows"
proof -
  let ?cd = "fst (aggregateRun tbl rows)"
  have mem: "(k, c) \<in> set ?cd \<longleftrightarrow>
      k \<in> rowId tbl ` set rows \<and> c = addTally tbl rows k (fresh (firstName tbl rows k))" for k c
    using map_of_eq_Some_iff[OF countryData_distinct, of tbl rows k c]
    by (auto simp: countryData_map_of split: if_splits)
  have ent: "toEntry (k, addTally tbl rows k (fresh (firstName tbl rows k))) = entryOf tbl rows k" for k
    by (simp add: toEntry_addTally entryOf_def)
  have "set (aggregateData tbl rows) = toEntry ` set ?cd"
    by (simp add: aggregateData_def set_objectEntries)
  also have "\<dots> = entryOf tbl rows ` rowId tbl ` set rows"
  proof (rule set_eqI)
    fix e
    show "e \<in> toEntry ` set ?cd \<longleftrightarrow> e \<in> entryOf tbl rows ` rowId tbl ` set rows"
    proof
      assume "e \<in> toEntry ` set ?cd"
      then obtain k c where "(k, c) \<in> set ?cd" "e = toEntry (k, c)" by auto
      then show "e \<in> entryOf tbl rows ` rowId tbl ` set rows"
        using mem[of k c] ent[of k] by auto
    next
      assume "e \<in> entryOf tbl rows ` rowId tbl ` set rows"
      then obtain k where k: "k \<in> rowId tbl ` set rows" "e = entryOf tbl rows k" by auto
      then have "(k, addTally tbl rows k (fresh (firstName tbl rows k))) \<in> set ?cd"
        using mem by blast
      then show "e \<in> toEntry ` set ?cd"
        using k ent[of k] by (metis image_eqI)
    qed
  qed
  finally show ?thesis .
qed

lemma entryId_toEntry: "entryId (toEntry p) = fst p"
  by (simp add: toEntry_def)

lemma distinct_aggregateData_ids: "distinct (map entryId (aggregateData tbl rows))"
proof -
  have "map entryId (aggregateData tbl rows) = map fst (objectEntries (fst (aggregateRun tbl rows)))"
    by (simp add: aggregateData_def entryId_toEntry[abs_def] comp_def)
  then show ?thesis
    by (simp add: distinct_objectEntries countryData_distinct)
qed

lemma find_distinct_key:
  "distinct (map f xs) \<Longrightarrow> x \<in> set xs \<Longrightarrow> find (\<lambda>y. f y = f x) xs = Some x"
  by (induction xs) auto

lemma find_aggregateData:
  "find (\<lambda>item. entryId item = k) (aggregateData tbl rows) =
     (if k \<in> rowId tbl ` set rows then Some (entryOf tbl rows k) else None)"
proof (cases "k \<in> rowId tbl ` set rows")
  case True
  then have "entryOf tbl rows k \<in> set (aggregateData tbl rows)"
    by (simp add: set_aggregateData)
  moreover have "entryId (entryOf tbl rows k) = k" by (simp add: entryOf_def)
  ultimately show ?thesis
    using find_distinct_key[OF distinct_aggregateData_ids, of "entryOf tbl rows k" tbl rows] True
    by simp
next
  case False
  have "\<And>e. e \<in> set (aggregateData tbl rows) \<Longrightarrow> entryId e \<noteq> k"
    using False by (auto simp: set_aggregateData entryOf_def)
  then show ?thesis using False by (simp add: find_None_iff)
qed

lemma tally_absent: "k \<notin> rowId tbl ` set rows \<Longrightarrow> tally tbl rows k s = 0"
  by (auto simp: tally_def filter_empty_conv)

lemma countsAt_tally:
  "countsAt tbl rows k = (tally tbl rows k 2, tally tbl rows k 1, tally tbl rows k 0)"
  by (simp add: countsAt_def find_aggregateData entryOf_def tally_absent)

lemma tally_nonneg: "0 \<le> tally tbl rows k s"
  by (simp add: tally_def)

lemma tally_snoc:
  "tally tbl (rows @ [r]) k s =
     tally tbl rows k s + (if rowId tbl r = k \<and> sentiment r = Some s then 1 else 0)"
  by (simp add: tally_def)

lemma tally_total:
  "\<forall>r \<in> set rows. isValid r \<Longrightarrow>
     tally tbl rows k 2 + tally tbl rows k 1 + tally tbl rows k 0 =
       int (length (filter (\<lambda>r. rowId tbl r = k) rows))"
proof (induction rows)
  case Nil
  show ?case by (simp add: tally_def)
next
  case (Cons r rows)
  then have "sentiment r = Some 0 \<or> sentiment r = Some 1 \<or> sentiment r = Some 2"
    by (auto simp: isValid_def split: option.splits)
  with Cons show ?case
    by (auto simp: tally_Cons)
qed

lemma tally_perm: "mset rows = mset rows' \<Longrightarrow> tally tbl rows k s = tally tbl rows' k s"
proof -
  assume eq: "mset rows = mset rows'"
  let ?P = "\<lambda>r. rowId tbl r = k \<and> sentiment r = Some s"
  have "length (filter ?P rows) = size (filter_mset ?P (mset rows))"
    by (simp only: mset_filter[symmetric] size_mset)
  also have "\<dots> = size (filter_mset ?P (mset rows'))"
    by (simp only: eq)
  also have "\<dots> = length (filter ?P rows')"
    by (simp only: mset_filter[symmetric] size_mset)
  finally show ?thesis
    by (simp only: tally_def)
qed

section \<open>Properties of the aggregate\<close>

text \<open>
  C1. For every list of rows, every entry that \<open>aggregateData\<close> produces has counts
  \<open>positive\<close>, \<open>neutral\<close> and \<open>negative\<close> that are non-negative integers, and its \<open>total\<close>
  is their sum.
\<close>

theorem aggregateData_counts:
  "\<forall>e \<in> set (aggregateData tbl rows).
     0 \<le> positive e \<and> 0 \<le> neutral e \<and> 0 \<le> negative e
     \<and> total e = positive e + neutral e + negative e"
  by (auto simp: set_aggregateData entryOf_def tally_nonneg)

theorem aggregateData_counts_witness:
  "aggregateData sampleIds sampleRows \<noteq> []
   \<and> 0 \<le> positive (hd (aggregateData sampleIds sampleRows))
   \<and> 0 \<le> neutral (hd (aggregateData sampleIds sampleRows))
   \<and> 0 \<le> negative (hd (aggregateData sampleIds sampleRows))
   \<and> total (hd (aggregateData sampleIds sampleRows)) =
       positive (hd (aggregateData sampleIds sampleRows))
       + neutral (hd (aggregateData sampleIds sampleRows))
       + negative (hd (aggregateData sampleIds sampleRows))"
proof -
  have ne: "aggregateData sampleIds sampleRows \<noteq> []"
    by code_simp
  then have "hd (aggregateData sampleIds sampleRows) \<in> set (aggregateData sampleIds sampleRows)"
    by (rule hd_in_set)
  with aggregateData_counts [of sampleIds sampleRows] ne show ?thesis
    by blast
qed

text \<open>
  C2. Sentiment 0 is negative, 1 is neutral, 2 is positive: processing one more row
  increments, in the entry of the row's country, the negative count for sentiment 0, the
  neutral count for sentiment 1 and the positive count for sentiment 2, by exactly one;
  the other two counts of that entry and the counts of every other country stay as they
  were.
\<close>

theorem sentiment_increments:
  assumes "countsAt tbl rows (rowId tbl r) = (p, n, g)"
  shows "(sentiment r = Some 0 \<longrightarrow> countsAt tbl (rows @ [r]) (rowId tbl r) = (p, n, g + 1))
       \<and> (sentiment r = Some 1 \<longrightarrow> countsAt tbl (rows @ [r]) (rowId tbl r) = (p, n + 1, g))
       \<and> (sentiment r = Some 2 \<longrightarrow> countsAt tbl (rows @ [r]) (rowId tbl r) = (p + 1, n, g))
       \<and> (\<forall>k. k \<noteq> rowId tbl r \<longrightarrow> countsAt tbl (rows @ [r]) k = countsAt tbl rows k)"
  using assms by (auto simp: countsAt_tally tally_snoc)

theorem sentiment_increments_witness:
  "countsAt sampleIds sampleRows ''IN'' = (1, 1, 0)
   \<and> countsAt sampleIds
        (sampleRows @ [\<lparr>country = ''India'', region = ''Asia'', sentiment = Some 0\<rparr>]) ''IN''
       = (1, 1, 1)
   \<and> countsAt sampleIds
        (sampleRows @ [\<lparr>country = ''India'', region = ''Asia'', sentiment = Some 0\<rparr>]) ''FRANCE''
       = countsAt sampleIds sampleRows ''FRANCE''"
proof -
  let ?r = "\<lparr>country = ''India'', region = ''Asia'', sentiment = Some (0::int)\<rparr>"
  have id: "rowId sampleIds ?r = ''IN''" by code_simp
  have before: "countsAt sampleIds sampleRows ''IN'' = (1, 1, 0)" by code_simp
  have ne: "''FRANCE'' \<noteq> ''IN''" by simp
  from sentiment_increments [of sampleIds sampleRows ?r 1 1 0] before id ne
  show ?thesis by simp
qed

text \<open>
  C5. The aggregate is a per-country tally of the kept rows: \<open>aggregateData\<close> produces
  exactly one entry for each identifier that some row maps to (through the table, or else
  the upper-cased country name), and the \<open>total\<close> of an entry is the number of rows that
  map to its identifier.
\<close>

theorem aggregateData_tally:
  assumes "\<forall>r \<in> set rows. isValid r"
  shows "distinct (map entryId (aggregateData tbl rows))
       \<and> set (map entryId (aggregateData tbl rows)) = rowId tbl ` set rows
       \<and> (\<forall>e \<in> set (aggregateData tbl rows).
            total e = int (length (filter (\<lambda>r. rowId tbl r = entryId e) rows)))"
proof -
  have "set (map entryId (aggregateData tbl rows)) = rowId tbl ` set rows"
    by (auto simp: set_aggregateData entryOf_def image_image)
  moreover have "\<forall>e \<in> set (aggregateData tbl rows).
      total e = int (length (filter (\<lambda>r. rowId tbl r = entryId e) rows))"
    using tally_total[OF assms] by (auto simp: set_aggregateData entryOf_def)
  ultimately show ?thesis
    using distinct_aggregateData_ids by blast
qed

theorem aggregateData_tally_witness:
  "list_all isValid sampleRows
   \<and> map entryId (aggregateData sampleIds sampleRows) = [''IN'', ''FRANCE'']
   \<and> map total (aggregateData sampleIds sampleRows) = [2, 2]
   \<and> total (hd (aggregateData sampleIds sampleRows)) =
       int (length (filter (\<lambda>r. rowId sampleIds r = entryId (hd (aggregateData sampleIds sampleRows)))
                      sampleRows))"
proof -
  have valid: "list_all isValid sampleRows" by code_simp
  then have hyp: "\<forall>r \<in> set sampleRows. isValid r" by (simp add: list_all_iff)
  have ids: "map entryId (aggregateData sampleIds sampleRows) = [''IN'', ''FRANCE'']"
    by code_simp
  have tot: "map total (aggregateData sampleIds sampleRows) = [2, 2]"
    by code_simp
  from ids have "aggregateData sampleIds sampleRows \<noteq> []" by auto
  then have "hd (aggregateData sampleIds sampleRows) \<in> set (aggregateData sampleIds sampleRows)"
    by (rule hd_in_set)
  with aggregateData_tally [OF hyp, of sampleIds] valid ids tot show ?thesis
    by blast
qed

lemma snd_aggregateRun:
  "snd (aggregateRun tbl rows) =
     map (\<lambda>(j, r). (j, country r, rowId tbl r, sentiment r)) (zip [0 ..< length rows] rows)"
  by (simp add: aggregateRun_def forEach_rowCallback)

lemma length_aggregateData_le: "length (aggregateData tbl rows) \<le> length rows"
proof -
  have "length (aggregateData tbl rows) = card (set (map entryId (aggregateData tbl rows)))"
    using distinct_card[OF distinct_aggregateData_ids, of tbl rows] by simp
  also have "\<dots> = card (rowId tbl ` set rows)"
    by (auto simp: set_aggregateData entryOf_def image_image)
  also have "\<dots> \<le> card (set rows)"
    by (rule card_image_le) simp
  also have "\<dots> \<le> length rows"
    by (rule card_length)
  finally show ?thesis .
qed

lemma processRowT_fst: "fst (processRowT tbl cd r) = processRow tbl cd r"
  by (simp add: processRowT_def processRow_def Let_def)

lemma length_update:
  "length (AList.update k v al) = (if map_of al k = None then Suc (length al) else length al)"
  by (induction al) (auto split: if_splits)

lemma length_map_entry: "length (AList.map_entry k f al) = length al"
  by (induction al) auto

lemma processRowT_snd:
  "snd (processRowT tbl cd r) + length cd =
     2 + (if sentiment r \<in> {Some 0, Some 1, Some 2} then 1 else 0)
       + length (processRow tbl cd r)"
  by (auto simp: processRowT_def processRow_def Let_def length_update length_map_entry)

lemma forEach_rowCallbackT:
  "fst (forEach (rowCallbackT tbl) rows i st) = forEach (rowCallback tbl) rows i (fst st)
   \<and> snd (forEach (rowCallbackT tbl) rows i st) + length (fst (fst st)) =
       snd st + 2 * length rows
       + length (filter (\<lambda>r. sentiment r \<in> {Some 0, Some 1, Some 2}) rows)
       + length (fst (forEach (rowCallback tbl) rows i (fst st)))"
proof (induction rows arbitrary: i st)
  case Nil
  show ?case by simp
next
  case (Cons r rows)
  let ?st' = "rowCallbackT tbl st r i"
  have f: "fst ?st' = rowCallback tbl (fst st) r i"
    by (simp add: rowCallbackT_def rowCallback_def processRowT_fst)
  have cd: "fst (fst ?st') = processRow tbl (fst (fst st)) r"
    by (simp add: rowCallbackT_def processRowT_fst)
  have s: "snd ?st' + length (fst (fst st)) =
      snd st + 2 + (if sentiment r \<in> {Some 0, Some 1, Some 2} then 1 else 0)
      + length (processRow tbl (fst (fst st)) r)"
    using processRowT_snd[of tbl "fst (fst st)" r] by (simp add: rowCallbackT_def)
  have step: "forEach (rowCallbackT tbl) (r # rows) i st = forEach (rowCallbackT tbl) rows (Suc i) ?st'"
    "forEach (rowCallback tbl) (r # rows) i (fst st)
       = forEach (rowCallback tbl) rows (Suc i) (rowCallback tbl (fst st) r i)"
    by simp_all
  from Cons.IH[of "Suc i" ?st'] f cd s show ?case
    unfolding step by (cases "sentiment r \<in> {Some 0, Some 1, Some 2}") simp_all
qed

lemma length_objectEntries: "length (objectEntries xs) = length xs"
  by (metis mset_objectEntries size_mset)

lemma aggregateDataT_fst: "fst (aggregateDataT tbl rows) = aggregateData tbl rows"
  using forEach_rowCallbackT[of tbl rows 0 "(([], []), 0)"]
  by (simp add: aggregateDataT_def aggregateData_def aggregateRun_def Let_def)

lemma aggregateDataT_snd:
  "snd (aggregateDataT tbl rows) =
     2 * length rows + length (filter (\<lambda>r. sentiment r \<in> {Some 0, Some 1, Some 2}) rows)
     + 3 * length (aggregateData tbl rows)"
  using forEach_rowCallbackT[of tbl rows 0 "(([], []), 0)"]
  by (simp add: aggregateDataT_def aggregateData_def aggregateRun_def Let_def length_objectEntries)

text \<open>
  C7. Aggregation is a single pass whose work is linear in the number of rows.
  \<open>forEach\<close> is defined by structural recursion on the list of rows, so \<open>aggregateData\<close>
  returns for every list. The counted run returns what \<open>aggregateData\<close> returns, and its
  number of steps is exactly two for every row, one more for every row whose sentiment is
  0, 1 or 2, and three for every entry produced (its creation, its listing by
  \<open>Object.entries\<close> and its \<open>map\<close> callback); that is at most six times the number of
  rows. The callback runs once for every row, in order: the console holds exactly one line
  per row, the line of index \<open>i\<close> describing the row at position \<open>i\<close>.
\<close>

theorem aggregateData_single_pass:
  "fst (aggregateDataT tbl rows) = aggregateData tbl rows
   \<and> snd (aggregateDataT tbl rows) =
       2 * length rows + length (filter (\<lambda>r. sentiment r \<in> {Some 0, Some 1, Some 2}) rows)
       + 3 * length (aggregateData tbl rows)
   \<and> snd (aggregateDataT tbl rows) \<le> 6 * length rows
   \<and> aggregateLog tbl rows =
       map (\<lambda>i. (i, country (rows ! i), rowId tbl (rows ! i), sentiment (rows ! i)))
           [0 ..< length rows]"
proof -
  have "map (\<lambda>(j, r). (j, country r, rowId tbl r, sentiment r)) (zip [0 ..< length rows] rows)
      = map (\<lambda>i. (i, country (rows ! i), rowId tbl (rows ! i), sentiment (rows ! i)))
          [0 ..< length rows]"
    by (rule nth_equalityI) simp_all
  then have trace: "aggregateLog tbl rows =
       map (\<lambda>i. (i, country (rows ! i), rowId tbl (rows ! i), sentiment (rows ! i)))
           [0 ..< length rows]"
    by (simp add: aggregateLog_def snd_aggregateRun)
  have v: "length (filter (\<lambda>r. sentiment r \<in> {Some 0, Some 1, Some 2}) rows) \<le> length rows"
    by (rule length_filter_le)
  have m: "length (aggregateData tbl rows) \<le> length rows"
    by (rule length_aggregateData_le)
  from v m have bound: "snd (aggregateDataT tbl rows) \<le> 6 * length rows"
    unfolding aggregateDataT_snd by linarith
  from trace bound aggregateDataT_fst[of tbl rows] aggregateDataT_snd[of tbl rows]
  show ?thesis by (simp only: simp_thms)
qed

lemma aggregateDataT_sample:
  "aggregateDataT sampleIds sampleRows = (aggregateData sampleIds sampleRows, 18)"
  by code_simp

text \<open>
  C8. For kept rows, every entry that \<open>aggregateData\<close> produces has a \<open>total\<close> of at least
  1, so the guard \<open>!countryData || countryData.total === 0\<close> of \<open>getColorValue\<close> is false
  on every such entry.
\<close>

theorem aggregateData_total_positive:
  assumes "\<forall>r \<in> set rows. isValid r"
  shows "\<forall>e \<in> set (aggregateData tbl rows). 1 \<le> total e \<and> \<not> zeroGuard (Some e)"
proof
  fix e assume e: "e \<in> set (aggregateData tbl rows)"
  then obtain r where r: "r \<in> set rows" "entryId e = rowId tbl r"
    by (auto simp: set_aggregateData entryOf_def)
  have "total e = int (length (filter (\<lambda>r. rowId tbl r = entryId e) rows))"
    using tally_total[OF assms] e by (auto simp: set_aggregateData entryOf_def)
  moreover have "filter (\<lambda>r. rowId tbl r = entryId e) rows \<noteq> []"
    using r by (auto simp: filter_empty_conv)
  ultimately have "1 \<le> total e"
    by (cases "filter (\<lambda>r. rowId tbl r = entryId e) rows") simp_all
  then show "1 \<le> total e \<and> \<not> zeroGuard (Some e)"
    by (simp add: zeroGuard_def)
qed

theorem aggregateData_total_positive_witness:
  "list_all isValid sampleRows
   \<and> aggregateData sampleIds sampleRows \<noteq> []
   \<and> 1 \<le> total (hd (aggregateData sampleIds sampleRows))
   \<and> \<not> zeroGuard (Some (hd (aggregateData sampleIds sampleRows)))"
proof -
  have valid: "list_all isValid sampleRows" by code_simp
  then have hyp: "\<forall>r \<in> set sampleRows. isValid r" by (simp add: list_all_iff)
  have ne: "aggregateData sampleIds sampleRows \<noteq> []" by code_simp
  then have "hd (aggregateData sampleIds sampleRows) \<in> set (aggregateData sampleIds sampleRows)"
    by (rule hd_in_set)
  with aggregateData_total_positive [OF hyp, of sampleIds] valid ne show ?thesis
    by blast
qed

text \<open>
  C9. For an aggregate with non-negative counts that sum to a positive \<open>total\<close>,
  \<open>getColorValue\<close> returns a rational in the closed interval from 0 to 1 for every view;
  the overall score \<open>(2 * positive + neutral - 2 * negative) / (2 * total)\<close> lies between
  -1 and 1 and the overall view returns it normalised, \<open>(score + 1) / 2\<close>.
\<close>

theorem getColorValue_unit_interval:
  assumes "0 \<le> positive cd" and "0 \<le> neutral cd" and "0 \<le> negative cd"
    and "total cd = positive cd + neutral cd + negative cd" and "0 < total cd"
  shows "0 \<le> getColorValue (Some cd) view \<and> getColorValue (Some cd) view \<le> 1
       \<and> - 1 \<le> overallScore cd \<and> overallScore cd \<le> 1
       \<and> getColorValue (Some cd) ''overall'' = (overallScore cd + 1) / 2"
proof -
  have t: "(0::rat) < of_int (total cd)" using assms(5) by simp
  have p: "(of_int (positive cd) :: rat) \<le> of_int (total cd)" "(0::rat) \<le> of_int (positive cd)"
    and n: "(of_int (neutral cd) :: rat) \<le> of_int (total cd)" "(0::rat) \<le> of_int (neutral cd)"
    and g: "(of_int (negative cd) :: rat) \<le> of_int (total cd)" "(0::rat) \<le> of_int (negative cd)"
    using assms by simp_all
  have lo: "- 1 \<le> overallScore cd"
  proof -
    have "- (2 * total cd) \<le> 2 * positive cd + neutral cd - 2 * negative cd"
      using assms by simp
    then have "- (of_int (2 * total cd) :: rat) \<le> of_int (2 * positive cd + neutral cd - 2 * negative cd)"
      by (metis of_int_le_iff of_int_minus)
    moreover have "(0::rat) < of_int (2 * total cd)" using assms(5) by simp
    ultimately show ?thesis
      unfolding overallScore_def by (simp add: pos_le_divide_eq)
  qed
  have hi: "overallScore cd \<le> 1"
  proof -
    have "2 * positive cd + neutral cd - 2 * negative cd \<le> 2 * total cd"
      using assms by simp
    then have "(of_int (2 * positive cd + neutral cd - 2 * negative cd) :: rat) \<le> of_int (2 * total cd)"
      by (simp only: of_int_le_iff)
    moreover have "(0::rat) < of_int (2 * total cd)" using assms(5) by simp
    ultimately show ?thesis
      unfolding overallScore_def by (simp add: pos_divide_le_eq)
  qed
  have ng: "\<not> zeroGuard (Some cd)" using assms(5) by (simp add: zeroGuard_def)
  have ov: "getColorValue (Some cd) ''overall'' = (overallScore cd + 1) / 2"
    using ng by (simp add: getColorValue_def)
  have "0 \<le> getColorValue (Some cd) view \<and> getColorValue (Some cd) view \<le> 1"
    using ng t p n g lo hi
    by (simp add: getColorValue_def Let_def pos_divide_le_eq)
  with lo hi ov show ?thesis by simp
qed


theorem getColorValue_unit_interval_witness:
  "getColorValue (Some (hd (aggregateData sampleIds sampleRows))) ''overall'' = 7 / 8
   \<and> 0 \<le> getColorValue (Some (hd (aggregateData sampleIds sampleRows))) ''overall''
   \<and> getColorValue (Some (hd (aggregateData sampleIds sampleRows))) ''overall'' \<le> 1
   \<and> - 1 \<le> overallScore (hd (aggregateData sampleIds sampleRows))
   \<and> overallScore (hd (aggregateData sampleIds sampleRows)) \<le> 1"
proof -
  let ?cd = "hd (aggregateData sampleIds sampleRows)"
  have h: "0 \<le> positive ?cd" "0 \<le> neutral ?cd" "0 \<le> negative ?cd"
    "total ?cd = positive ?cd + neutral ?cd + negative ?cd" "0 < total ?cd"
    by code_simp+
  have v: "getColorValue (Some ?cd) ''overall'' = 7 / 8"
    by code_simp
  from getColorValue_unit_interval [OF h, of "''overall''"] v show ?thesis
    by simp
qed

lemma countsOnly_entryOf:
  "countsOnly (entryOf tbl rows k) =
     (k, tally tbl rows k 2, tally tbl rows k 1, tally tbl rows k 0,
      tally tbl rows k 2 + tally tbl rows k 1 + tally tbl rows k 0)"
  by (simp add: countsOnly_def entryOf_def)

lemma distinct_countsOnly: "distinct (map countsOnly (aggregateData tbl rows))"
proof -
  have "map fst (map countsOnly (aggregateData tbl rows)) = map entryId (aggregateData tbl rows)"
    by (simp add: countsOnly_def comp_def)
  then have "distinct (map fst (map countsOnly (aggregateData tbl rows)))"
    by (simp only: distinct_aggregateData_ids)
  then show ?thesis
    using distinct_map by blast
qed

text \<open>
  C10. The per-country counts do not depend on the order of the rows: two lists with the
  same rows, in any order, give the same entries up to their order and their
  \<open>displayName\<close>, which is the country of the first row seen for the identifier.
\<close>

theorem aggregateData_permutation:
  assumes "mset rows = mset rows'"
  shows "mset (map countsOnly (aggregateData tbl rows))
       = mset (map countsOnly (aggregateData tbl rows'))"
proof -
  have s: "set rows = set rows'"
    using assms by (rule mset_eq_setD)
  have "countsOnly (entryOf tbl rows k) = countsOnly (entryOf tbl rows' k)" for k
    by (simp add: countsOnly_entryOf tally_perm[OF assms])
  then have "set (map countsOnly (aggregateData tbl rows))
           = set (map countsOnly (aggregateData tbl rows'))"
    by (simp add: set_aggregateData s image_image)
  then show ?thesis
    using distinct_countsOnly set_eq_iff_mset_eq_distinct by blast
qed

theorem aggregateData_permutation_witness:
  "mset sampleRows = mset (rev sampleRows)
   \<and> map countsOnly (aggregateData sampleIds sampleRows)
       = [(''IN'', 1, 1, 0, 2), (''FRANCE'', 0, 0, 2, 2)]
   \<and> map countsOnly (aggregateData sampleIds (rev sampleRows))
       = [(''FRANCE'', 0, 0, 2, 2), (''IN'', 1, 1, 0, 2)]
   \<and> mset (map countsOnly (aggregateData sampleIds sampleRows))
       = mset (map countsOnly (aggregateData sampleIds (rev sampleRows)))"
proof -
  have p: "mset sampleRows = mset (rev sampleRows)" by simp
  have a: "map countsOnly (aggregateData sampleIds sampleRows)
       = [(''IN'', 1, 1, 0, 2), (''FRANCE'', 0, 0, 2, 2)]" by code_simp
  have b: "map countsOnly (aggregateData sampleIds (rev sampleRows))
       = [(''FRANCE'', 0, 0, 2, 2), (''IN'', 1, 1, 0, 2)]" by code_simp
  from aggregateData_permutation [OF p, of sampleIds] p a b show ?thesis
    by (simp only: simp_thms)
qed

lemma displayName_follows_first_row:
  "map displayName (aggregateData sampleIds sampleRows) = [''India'', ''france'']
   \<and> map displayName (aggregateData sampleIds (rev sampleRows)) = [''France'', ''India'']"
  by code_simp

section \<open>Properties of the load\<close>

lemma parseInt10_undefined: "parseInt10 ''undefined'' = None"
  by code_simp

lemma isValid_toRow: "isValid (toRow ch rh vh obj) = keptBySpec ch vh obj"
proof (cases "obj vh")
  case None
  then show ?thesis
    by (simp add: isValid_def toRow_def keptBySpec_def parseInt10_undefined)
next
  case (Some v)
  then show ?thesis
    by (cases "parseInt10 v")
       (auto simp: isValid_def toRow_def keptBySpec_def orEmpty_def split: option.splits)
qed

text \<open>
  C4. A row object is kept exactly when its country cell is there and not empty and
  \<open>parseInt\<close> reads 0, 1 or 2 from its value cell; the extracted rows are the kept row
  objects, in order, and every other row object is dropped.
\<close>

theorem extractRows_keeps:
  "isValid (toRow ch rh vh obj) = keptBySpec ch vh obj
   \<and> extractRows parsed =
       map (toRow (countryHeader (metaFields parsed)) (regionHeader (metaFields parsed))
              (valueHeader (metaFields parsed)))
         (filter (keptBySpec (countryHeader (metaFields parsed)) (valueHeader (metaFields parsed)))
            (parsedData parsed))"
  by (simp add: extractRows_def Let_def filter_map comp_def isValid_toRow cong: filter_cong)

lemma extractRows_sample:
  "extractRows (papaParse \<lparr>headerCells = [''Country'', ''Region'', ''RandomValue''],
                           recordCells = sampleCells\<rparr>)
   = [\<lparr>country = ''India'', region = ''Asia'', sentiment = Some 2\<rparr>,
      \<lparr>country = ''Chile'', region = ''America'', sentiment = Some 0\<rparr>]"
  by code_simp

lemma foldl_assign:
  "foldl (\<lambda>obj p. obj(fst p \<mapsto> g (snd p))) m kvs
     = m ++ map_of (rev (map (\<lambda>p. (fst p, g (snd p))) kvs))"
proof -
  define F where "F = (\<lambda>(obj :: 'a \<Rightarrow> 'b option) p. obj(fst p \<mapsto> g (snd p)))"
  have "foldl F m kvs = m ++ map_of (rev (map (\<lambda>p. (fst p, g (snd p))) kvs))"
  proof (induction kvs arbitrary: m)
    case Nil
    show ?case by simp
  next
    case (Cons a kvs)
    have "foldl F m (a # kvs) = foldl F (F m a) kvs"
      by simp
    also have "\<dots> = F m a ++ map_of (rev (map (\<lambda>p. (fst p, g (snd p))) kvs))"
      by (rule Cons.IH)
    also have "F m a = m ++ [fst a \<mapsto> g (snd a)]"
      by (simp add: F_def)
    finally show ?case
      by (simp del: map_add_upd)
  qed
  then show ?thesis by (simp only: F_def)
qed

lemma papaRow_map_of: "papaRow hs cells = map_of (rev (zip hs (map trim cells)))"
proof -
  have "map (\<lambda>p. (fst p, trim (snd p))) (zip hs cells) = zip hs (map trim cells)"
    by (simp add: zip_map2 case_prod_unfold)
  then show ?thesis
    by (simp add: papaRow_def foldl_assign)
qed

lemma map_of_rev_once:
  "length (filter (\<lambda>p. fst p = k) kvs) \<le> 1 \<Longrightarrow> map_of (rev kvs) k = map_of kvs k"
proof (induction kvs)
  case Nil
  show ?case by simp
next
  case (Cons a kvs)
  show ?case
  proof (cases "fst a = k")
    case True
    with Cons.prems have "filter (\<lambda>p. fst p = k) kvs = []" by simp
    then have "k \<notin> fst ` set kvs"
      by (auto simp: filter_empty_conv)
    then have "map_of (rev kvs) k = None"
      by (simp add: map_of_eq_None_iff)
    with True show ?thesis
      by (cases a) (simp add: map_add_def)
  next
    case False
    with Cons show ?thesis
      by (cases a) (simp add: map_add_def split: option.splits)
  qed
qed

lemma zip_key_count:
  "toLowerCase k = name \<Longrightarrow>
     length (filter (\<lambda>p. fst p = k) (zip hs vs))
       \<le> length (filter (\<lambda>h. toLowerCase h = name) hs)"
proof (induction hs arbitrary: vs)
  case Nil
  show ?case by simp
next
  case (Cons h hs)
  show ?case
  proof (cases vs)
    case Nil
    then show ?thesis by simp
  next
    case (Cons v vs')
    with Cons.IH[OF Cons.prems, of vs'] Cons.prems show ?thesis
      by auto
  qed
qed

lemma find_SomeD: "find P xs = Some x \<Longrightarrow> P x"
  by (auto simp: find_Some_iff)

lemma find_header_cell:
  "find (\<lambda>h. toLowerCase h = name) hs = Some k \<Longrightarrow>
     map_of (zip hs vs) k = map_of (zip (map toLowerCase hs) vs) name"
proof (induction hs arbitrary: vs)
  case Nil
  then show ?case by simp
next
  case (Cons h hs)
  have k: "toLowerCase k = name"
    using Cons.prems by (rule find_SomeD)
  show ?case
  proof (cases vs)
    case Nil
    then show ?thesis by simp
  next
    case (Cons v vs')
    show ?thesis
    proof (cases "toLowerCase h = name")
      case True
      with Cons.prems Cons show ?thesis by simp
    next
      case False
      with k have "h \<noteq> k" by auto
      with False Cons.prems Cons.IH[of vs'] Cons show ?thesis by simp
    qed
  qed
qed

lemma toLowerCase_nonempty: "toLowerCase h = name \<Longrightarrow> name \<noteq> [] \<Longrightarrow> h \<noteq> []"
  by (auto simp: toLowerCase_def)

lemma header_cell:
  assumes once: "length (filter (\<lambda>h. toLowerCase h = name) hs) \<le> 1"
    and fb: "toLowerCase fallback = name" and ne: "name \<noteq> []"
  shows "papaRow hs cells (findHeader hs name fallback)
       = map_of (zip (map toLowerCase hs) (map trim cells)) name"
proof (cases "find (\<lambda>h. toLowerCase h = name) hs")
  case None
  then have no: "\<And>h. h \<in> set hs \<Longrightarrow> toLowerCase h \<noteq> name"
    by (auto simp: find_None_iff)
  then have "fallback \<notin> set hs" using fb by auto
  then have "fallback \<notin> fst ` set (rev (zip hs (map trim cells)))"
    by (auto dest: set_zip_leftD)
  then have "map_of (rev (zip hs (map trim cells))) fallback = None"
    by (simp add: map_of_eq_None_iff)
  moreover have "name \<notin> set (map toLowerCase hs)"
    using no by fastforce
  then have "name \<notin> fst ` set (zip (map toLowerCase hs) (map trim cells))"
    by (auto dest: set_zip_leftD)
  then have "map_of (zip (map toLowerCase hs) (map trim cells)) name = None"
    by (simp add: map_of_eq_None_iff)
  ultimately show ?thesis
    using None by (simp add: findHeader_def papaRow_map_of)
next
  case (Some k)
  then have k: "toLowerCase k = name"
    by (rule find_SomeD)
  then have "k \<noteq> []" using ne by (rule toLowerCase_nonempty)
  then have h: "findHeader hs name fallback = k"
    using Some by (simp add: findHeader_def)
  have "length (filter (\<lambda>p. fst p = k) (zip hs (map trim cells))) \<le> 1"
    using zip_key_count[OF k, of hs "map trim cells"] once by simp
  then have "map_of (rev (zip hs (map trim cells))) k = map_of (zip hs (map trim cells)) k"
    by (rule map_of_rev_once)
  also have "\<dots> = map_of (zip (map toLowerCase hs) (map trim cells)) name"
    using Some by (rule find_header_cell)
  finally show ?thesis
    by (simp add: h papaRow_map_of)
qed

lemma filter_lower_length:
  "length (filter (\<lambda>h. toLowerCase h = name) hs)
     = length (filter (\<lambda>l. l = name) (map toLowerCase hs))"
  by (simp add: filter_map comp_def)

lemma findHeader_fallback:
  "name \<notin> set (map toLowerCase hs) \<Longrightarrow> findHeader hs name fallback = fallback"
proof -
  assume "name \<notin> set (map toLowerCase hs)"
  then have "find (\<lambda>h. toLowerCase h = name) hs = None"
    by (auto simp: find_None_iff)
  then show ?thesis by (simp add: findHeader_def)
qed

lemma lower_names:
  "toLowerCase ''Country'' = ''country''"
  "toLowerCase ''Region'' = ''region''"
  "toLowerCase ''RandomValue'' = ''randomvalue''"
  by code_simp+

text \<open>
  C6. Headers are matched up to case. Two header rows that agree up to case, with at most
  one column for each of the three names, give the same extracted rows for the same
  records; in particular a header row of casing variants gives the rows of the canonical
  headers. When no header matches a name up to case, the literal \<open>Country\<close>, \<open>Region\<close> or
  \<open>RandomValue\<close> is the column key.
\<close>

theorem headers_case_insensitive:
  assumes same: "map toLowerCase hs = map toLowerCase hs'"
    and c: "length (filter (\<lambda>h. toLowerCase h = ''country'') hs) \<le> 1"
    and r: "length (filter (\<lambda>h. toLowerCase h = ''region'') hs) \<le> 1"
    and v: "length (filter (\<lambda>h. toLowerCase h = ''randomvalue'') hs) \<le> 1"
  shows "extractRows (papaParse \<lparr>headerCells = hs, recordCells = cells\<rparr>)
         = extractRows (papaParse \<lparr>headerCells = hs', recordCells = cells\<rparr>)
       \<and> (''country'' \<notin> set (map toLowerCase hs) \<longrightarrow> countryHeader hs = ''Country'')
       \<and> (''region'' \<notin> set (map toLowerCase hs) \<longrightarrow> regionHeader hs = ''Region'')
       \<and> (''randomvalue'' \<notin> set (map toLowerCase hs) \<longrightarrow> valueHeader hs = ''RandomValue'')"
proof -
  have c': "length (filter (\<lambda>h. toLowerCase h = ''country'') hs') \<le> 1"
    and r': "length (filter (\<lambda>h. toLowerCase h = ''region'') hs') \<le> 1"
    and v': "length (filter (\<lambda>h. toLowerCase h = ''randomvalue'') hs') \<le> 1"
    using c r v by (simp_all only: filter_lower_length same[symmetric])
  have row: "toRow (countryHeader hs) (regionHeader hs) (valueHeader hs) (papaRow hs cs)
           = toRow (countryHeader hs') (regionHeader hs') (valueHeader hs') (papaRow hs' cs)" for cs
  proof -
    have "papaRow hs cs (countryHeader hs) = papaRow hs' cs (countryHeader hs')"
      unfolding countryHeader_def
      using header_cell[OF c lower_names(1), of cs] header_cell[OF c' lower_names(1), of cs]
      by (simp add: same)
    moreover have "papaRow hs cs (regionHeader hs) = papaRow hs' cs (regionHeader hs')"
      unfolding regionHeader_def
      using header_cell[OF r lower_names(2), of cs] header_cell[OF r' lower_names(2), of cs]
      by (simp add: same)
    moreover have "papaRow hs cs (valueHeader hs) = papaRow hs' cs (valueHeader hs')"
      unfolding valueHeader_def
      using header_cell[OF v lower_names(3), of cs] header_cell[OF v' lower_names(3), of cs]
      by (simp add: same)
    ultimately show ?thesis
      by (simp add: toRow_def)
  qed
  have "extractRows (papaParse \<lparr>headerCells = hs, recordCells = cells\<rparr>)
         = extractRows (papaParse \<lparr>headerCells = hs', recordCells = cells\<rparr>)"
    by (simp add: extractRows_def papaParse_def Let_def comp_def row)
  then show ?thesis
    by (simp add: countryHeader_def regionHeader_def valueHeader_def findHeader_fallback)
qed


theorem headers_case_insensitive_witness:
  "extractRows (papaParse \<lparr>headerCells = [''COUNTRY'', ''region'', ''randomvalue''],
                           recordCells = sampleCells\<rparr>)
     = extractRows (papaParse \<lparr>headerCells = [''Country'', ''Region'', ''RandomValue''],
                               recordCells = sampleCells\<rparr>)
   \<and> extractRows (papaParse \<lparr>headerCells = [''COUNTRY'', ''region'', ''randomvalue''],
                             recordCells = sampleCells\<rparr>)
     = [\<lparr>country = ''India'', region = ''Asia'', sentiment = Some 2\<rparr>,
        \<lparr>country = ''Chile'', region = ''America'', sentiment = Some 0\<rparr>]
   \<and> countryHeader [''Name'', ''Area'', ''Score''] = ''Country''
   \<and> regionHeader [''Name'', ''Area'', ''Score''] = ''Region''
   \<and> valueHeader [''Name'', ''Area'', ''Score''] = ''RandomValue''"
proof -
  let ?hs = "[''COUNTRY'', ''region'', ''randomvalue'']"
  let ?hs' = "[''Country'', ''Region'', ''RandomValue'']"
  let ?ns = "[''Name'', ''Area'', ''Score'']"
  have same: "map toLowerCase ?hs = map toLowerCase ?hs'" by code_simp
  have c: "length (filter (\<lambda>h. toLowerCase h = ''country'') ?hs) \<le> 1" by code_simp
  have r: "length (filter (\<lambda>h. toLowerCase h = ''region'') ?hs) \<le> 1" by code_simp
  have v: "length (filter (\<lambda>h. toLowerCase h = ''randomvalue'') ?hs) \<le> 1" by code_simp
  have rows: "extractRows (papaParse \<lparr>headerCells = ?hs, recordCells = sampleCells\<rparr>)
     = [\<lparr>country = ''India'', region = ''Asia'', sentiment = Some 2\<rparr>,
        \<lparr>country = ''Chile'', region = ''America'', sentiment = Some 0\<rparr>]"
    by code_simp
  have nc: "length (filter (\<lambda>h. toLowerCase h = ''country'') ?ns) \<le> 1" by code_simp
  have nr: "length (filter (\<lambda>h. toLowerCase h = ''region'') ?ns) \<le> 1" by code_simp
  have nv: "length (filter (\<lambda>h. toLowerCase h = ''randomvalue'') ?ns) \<le> 1" by code_simp
  have absent: "''country'' \<notin> set (map toLowerCase ?ns)" "''region'' \<notin> set (map toLowerCase ?ns)"
    "''randomvalue'' \<notin> set (map toLowerCase ?ns)"
    by code_simp+
  from headers_case_insensitive [OF same c r v, of sampleCells]
    headers_case_insensitive [OF refl nc nr nv, of sampleCells] rows absent
  show ?thesis by (simp only: simp_thms)
qed

lemma noValidData_nonempty: "noValidData \<noteq> []"
  by (simp add: noValidData_def)

text \<open>
  C3, amended. When the fetch fails (the promise is rejected, or the response is not
  \<open>ok\<close>) the error state becomes \<open>Failed to load data:\<close> followed by the message of the
  failure, and the error view shows it; when no valid row remains, the error state becomes
  the fixed message \<open>noValidData\<close> and the error view shows it. In both cases the data
  state is left as it was. The data state is set only when at least one valid row exists,
  and then, from the initial state, the dashboard is rendered. The effect consumes one
  fetch outcome and starts no other fetch.
\<close>

theorem load_error_handling:
  "(responseText f = Inl msg \<longrightarrow>
      error (loadEffect f st) = Some (''Failed to load data: '' @ msg)
      \<and> render (loadEffect f st) = ErrorView (''Failed to load data: '' @ msg)
      \<and> data (loadEffect f st) = data st)
   \<and> (responseText f = Inr csv \<and> extractRows (papaParse csv) = [] \<longrightarrow>
      error (loadEffect f st) = Some noValidData
      \<and> render (loadEffect f st) = ErrorView noValidData
      \<and> data (loadEffect f st) = data st)
   \<and> (responseText f = Inr csv \<and> extractRows (papaParse csv) \<noteq> [] \<longrightarrow>
      data (loadEffect f st) = extractRows (papaParse csv)
      \<and> error (loadEffect f st) = error st
      \<and> render (loadEffect f initialApp) = DashboardView)
   \<and> (data (loadEffect f st) \<noteq> data st \<longrightarrow>
      (\<exists>c. responseText f = Inr c \<and> extractRows (papaParse c) \<noteq> []))"
  by (auto simp: loadEffect_def render_def Let_def noValidData_nonempty initialApp_def
           split: sum.splits)


theorem load_error_handling_witness:
  "render (loadEffect notFound initialApp)
     = ErrorView ''Failed to load data: HTTP error: 404 Not Found''
   \<and> data (loadEffect notFound initialApp) = data initialApp
   \<and> render (loadEffect (served emptyCsv) initialApp) = ErrorView noValidData
   \<and> data (loadEffect (served emptyCsv) initialApp) = data initialApp
   \<and> data (loadEffect (served sampleCsv) initialApp)
     = [\<lparr>country = ''India'', region = ''Asia'', sentiment = Some 2\<rparr>,
        \<lparr>country = ''Chile'', region = ''America'', sentiment = Some 0\<rparr>]
   \<and> render (loadEffect (served sampleCsv) initialApp) = DashboardView
   \<and> (\<exists>c. responseText (served sampleCsv) = Inr c \<and> extractRows (papaParse c) \<noteq> [])"
proof -
  have a: "responseText notFound = Inl ''HTTP error: 404 Not Found''"
    by code_simp
  have b: "responseText (served emptyCsv) = Inr emptyCsv \<and> extractRows (papaParse emptyCsv) = []"
    by code_simp
  have rows: "extractRows (papaParse sampleCsv)
     = [\<lparr>country = ''India'', region = ''Asia'', sentiment = Some 2\<rparr>,
        \<lparr>country = ''Chile'', region = ''America'', sentiment = Some 0\<rparr>]"
    by code_simp
  have c: "responseText (served sampleCsv) = Inr sampleCsv \<and> extractRows (papaParse sampleCsv) \<noteq> []"
    by code_simp
  have d: "data (loadEffect (served sampleCsv) initialApp) \<noteq> data initialApp"
    by code_simp
  have e: "''Failed to load data: '' @ ''HTTP error: 404 Not Found''
         = ''Failed to load data: HTTP error: 404 Not Found''"
    by simp
  from load_error_handling [of notFound "''HTTP error: 404 Not Found''" initialApp emptyCsv]
    load_error_handling [of "served emptyCsv" "[]" initialApp emptyCsv]
    load_error_handling [of "served sampleCsv" "[]" initialApp sampleCsv]
    a b c d e rows
  show ?thesis by (simp only: simp_thms)
qed

text \<open>
  The claim C3 as stated has the error state set to one fixed message when the fetch
  fails. Two failing fetches leave two different messages.
\<close>

theorem fetch_error_message_varies:
  "error (loadEffect (Rejected ''Failed to fetch'') initialApp)
     = Some ''Failed to load data: Failed to fetch''
   \<and> error (loadEffect notFound initialApp)
     = Some ''Failed to load data: HTTP error: 404 Not Found''
   \<and> error (loadEffect (Rejected ''Failed to fetch'') initialApp)
     \<noteq> error (loadEffect notFound initialApp)"
  by code_simp

end
